theory Spec2Isabelle
  imports Main
begin

section \<open>Data model\<close>

text \<open>
  The development embeds \<^verbatim>\<open>waitForGitOpsPullRequest\<close> of the \<^verbatim>\<open>jx delete app\<close> command
  (package \<^verbatim>\<open>cmd\<close>, type \<^verbatim>\<open>DeleteAppOptions\<close>): the loop that polls a GitOps pull
  request until it is merged, closed, failed or timed out.

  Instants (\<^verbatim>\<open>time.Time\<close>) and durations (\<^verbatim>\<open>time.Duration\<close>) are integers counting
  nanoseconds. A Go \<^verbatim>\<open>error\<close> value is represented by its message; \<^verbatim>\<open>nil\<close> is \<open>None\<close>.
\<close>

type_synonym Time = int
type_synonym Duration = int

text \<open>
  \<^verbatim>\<open>gits.GitPullRequest\<close>, with the fields the loop reads. \<open>Merged\<close> is a \<^verbatim>\<open>*bool\<close>:
  \<open>None\<close> is the nil pointer.
\<close>

record GitPullRequest =
  URL :: string
  LastCommitSha :: string
  Merged :: "bool option"
  closedFlag :: bool

text \<open>
  Modelled from the spec: the method \<^verbatim>\<open>IsClosed\<close> of \<^verbatim>\<open>gits.GitPullRequest\<close> is declared
  in package \<^verbatim>\<open>gits\<close>, which is not among the sources; the spec describes a pull
  request handle with a boolean \<^verbatim>\<open>closedFlag\<close>, which \<^verbatim>\<open>IsClosed\<close> reports.
\<close>

definition IsClosed :: "GitPullRequest \<Rightarrow> bool" where
  "IsClosed pr = closedFlag pr"

text \<open>
  The part of the interface \<^verbatim>\<open>gits.GitProvider\<close> that the loop calls. A provider acts on
  a world \<open>'w\<close> (the hosting service, the network, the clock) and receives the pull
  request by pointer, so every call returns the world and the pull request as it left
  them. \<^verbatim>\<open>PullRequestLastCommitStatus\<close> returns Go's pair \<^verbatim>\<open>(status, err)\<close>.
\<close>

record 'w GitProvider =
  UpdatePullRequestStatus :: "GitPullRequest \<Rightarrow> 'w \<Rightarrow> string option \<times> GitPullRequest \<times> 'w"
  PullRequestLastCommitStatus ::
    "GitPullRequest \<Rightarrow> 'w \<Rightarrow> (string \<times> string option) \<times> GitPullRequest \<times> 'w"
  MergePullRequest :: "GitPullRequest \<Rightarrow> string \<Rightarrow> 'w \<Rightarrow> string option \<times> GitPullRequest \<times> 'w"

text \<open>
  \<^verbatim>\<open>ReleasePullRequestInfo\<close>: the provider and the pull request it created. Both fields
  are taken to be set: \<^verbatim>\<open>createEnvironmentPullRequest\<close>, which builds the value, is not
  among the sources.
\<close>

record 'w ReleasePullRequestInfo =
  GitProvider :: "'w GitProvider"
  PullRequest :: GitPullRequest

text \<open>
  The fields of \<^verbatim>\<open>DeleteAppOptions\<close> that the loop reads. The two durations are
  pointers (\<^verbatim>\<open>*time.Duration\<close>) that \<^verbatim>\<open>Run\<close> sets only when the corresponding flag is
  not the empty string.
\<close>

record DeleteAppOptions =
  NoMergePullRequest :: bool
  PullRequestPollDuration :: "Duration option"
  TimeoutDuration :: "Duration option"

text \<open>The clock of package \<^verbatim>\<open>time\<close>: \<^verbatim>\<open>time.Now\<close> and \<^verbatim>\<open>time.Sleep\<close>.\<close>

record 'w Clock =
  Now :: "'w \<Rightarrow> Time"
  Sleep :: "Duration \<Rightarrow> 'w \<Rightarrow> 'w"

text \<open>
  What an execution does that an observer can see, in order: the lines written
  with \<^verbatim>\<open>o.Printf\<close> and \<^verbatim>\<open>o.warnf\<close> (one constructor per format string, holding its
  arguments), and the calls made to the provider and to \<^verbatim>\<open>time.Sleep\<close>, each with
  what it returned.
\<close>

datatype event =
    Printf_Waiting string
  | Printf_Merged string
  | Warnf_Closed string
  | Warnf_LastCommitStatus string string string
  | Warnf_Merge string string
  | Call_UpdatePullRequestStatus "string option"
  | Call_PullRequestLastCommitStatus string "string option"
  | Call_MergePullRequest string "string option"
  | Call_Sleep Duration

record 'w sys =
  world :: 'w
  trace :: "event list"

definition emit :: "event \<Rightarrow> 'w sys \<Rightarrow> 'w sys" where
  "emit e s = s\<lparr>trace := trace s @ [e]\<rparr>"

text \<open>
  The four errors the function builds with \<^verbatim>\<open>fmt.Errorf\<close>, one constructor per format
  string, holding its arguments.
\<close>

datatype wait_error =
    FailedToQueryStatus string string
  | ClosedWithoutMerging string
  | LastCommitStatusBad string string string
  | TimedOutWaiting string Duration

text \<open>
  The message of each error. \<^verbatim>\<open>Duration.String\<close> belongs to Go's standard library and
  is a parameter.
\<close>

fun errorMessage :: "(Duration \<Rightarrow> string) \<Rightarrow> wait_error \<Rightarrow> string" where
  "errorMessage durationString (FailedToQueryStatus url err) =
     ''Failed to query the Pull Request status for '' @ url @ '' '' @ err"
| "errorMessage durationString (ClosedWithoutMerging url) =
     ''Promotion failed as Pull Request '' @ url @ '' is closed without merging''"
| "errorMessage durationString (LastCommitStatusBad url status sha) =
     ''Pull request '' @ url @ '' last commit has status '' @ status @ '' for ref '' @ sha"
| "errorMessage durationString (TimedOutWaiting url duration) =
     ''Timed out waiting for pull request '' @ url @ '' to merge. Waited ''
       @ durationString duration"

text \<open>
  How far an execution got: it returned (\<open>None\<close> is the \<^verbatim>\<open>nil\<close> error), it panicked
  on a nil pointer, or it is still in the loop, about to start a tick with the given
  pull request and \<^verbatim>\<open>logMergeFailure\<close>.
\<close>

datatype 'w result =
    Returned "wait_error option" "'w sys"
  | Panicked "'w sys"
  | Polling GitPullRequest bool "'w sys"

fun sys_of :: "'w result \<Rightarrow> 'w sys" where
  "sys_of (Returned r s) = s"
| "sys_of (Panicked s) = s"
| "sys_of (Polling pr logMergeFailure s) = s"

section \<open>The poll loop\<close>

definition mergeMessage :: string where
  "mergeMessage = ''jx promote automatically merged promotion PR''"

text \<open>
  Lines 258 to 276: the last commit status and the merge decision. \<open>Inl\<close> is the early
  return of line 274; \<open>Inr\<close> falls through to the timeout check.
\<close>

definition lastCommitStatusStep ::
  "DeleteAppOptions \<Rightarrow> 'w GitProvider \<Rightarrow> GitPullRequest \<Rightarrow> bool \<Rightarrow> 'w sys
     \<Rightarrow> (wait_error \<times> 'w sys) + (GitPullRequest \<times> bool \<times> 'w sys)" where
  "lastCommitStatusStep opts gitProvider pr logMergeFailure s =
     (case PullRequestLastCommitStatus gitProvider pr (world s) of
        ((status, err), pr2, w2) \<Rightarrow>
          let s2 = \<lparr>world = w2,
                    trace = trace s @ [Call_PullRequestLastCommitStatus status err]\<rparr> in
          (case err of
             Some e \<Rightarrow>
               Inr (pr2, logMergeFailure,
                    emit (Warnf_LastCommitStatus (URL pr2) (LastCommitSha pr2) e) s2)
           | None \<Rightarrow>
               if status = ''success'' then
                 if \<not> NoMergePullRequest opts then
                   (case MergePullRequest gitProvider pr2 mergeMessage w2 of
                      (merr, pr3, w3) \<Rightarrow>
                        let s3 = \<lparr>world = w3,
                                  trace = trace s2 @ [Call_MergePullRequest mergeMessage merr]\<rparr> in
                        (case merr of
                           Some e \<Rightarrow>
                             if \<not> logMergeFailure
                             then Inr (pr3, True, emit (Warnf_Merge (URL pr3) e) s3)
                             else Inr (pr3, logMergeFailure, s3)
                         | None \<Rightarrow> Inr (pr3, logMergeFailure, s3)))
                 else Inr (pr2, logMergeFailure, s2)
               else if status = ''error'' \<or> status = ''failure'' then
                 Inl (LastCommitStatusBad (URL pr2) status (LastCommitSha pr2), s2)
               else Inr (pr2, logMergeFailure, s2)))"

text \<open>
  Lines 278 to 281: the timeout check and the sleep. \<^verbatim>\<open>After\<close> is strict. The argument
  of \<^verbatim>\<open>time.Sleep\<close> dereferences \<^verbatim>\<open>o.PullRequestPollDuration\<close>, which panics when nil.
\<close>

definition timeoutCheck ::
  "'w Clock \<Rightarrow> DeleteAppOptions \<Rightarrow> Time \<Rightarrow> Duration \<Rightarrow> GitPullRequest \<Rightarrow> bool \<Rightarrow> 'w sys
     \<Rightarrow> 'w result" where
  "timeoutCheck clk opts end duration pr logMergeFailure s =
     (if end < Now clk (world s) then Returned (Some (TimedOutWaiting (URL pr) duration)) s
      else (case PullRequestPollDuration opts of
              None \<Rightarrow> Panicked s
            | Some d \<Rightarrow>
                Polling pr logMergeFailure
                  \<lparr>world = Sleep clk d (world s), trace = trace s @ [Call_Sleep d]\<rparr>))"

text \<open>Lines 243 to 281: one pass through the body of the \<^verbatim>\<open>for\<close> loop.\<close>

definition pollTick ::
  "'w Clock \<Rightarrow> DeleteAppOptions \<Rightarrow> 'w GitProvider \<Rightarrow> Time \<Rightarrow> Duration \<Rightarrow> GitPullRequest \<Rightarrow> bool
     \<Rightarrow> 'w sys \<Rightarrow> 'w result" where
  "pollTick clk opts gitProvider end duration pr logMergeFailure s =
     (case UpdatePullRequestStatus gitProvider pr (world s) of
        (err, pr1, w1) \<Rightarrow>
          let s1 = \<lparr>world = w1, trace = trace s @ [Call_UpdatePullRequestStatus err]\<rparr> in
          (case err of
             Some e \<Rightarrow> Returned (Some (FailedToQueryStatus (URL pr1) e)) s1
           | None \<Rightarrow>
               if Merged pr1 = Some True then Returned None (emit (Printf_Merged (URL pr1)) s1)
               else if IsClosed pr1 then
                 Returned (Some (ClosedWithoutMerging (URL pr1))) (emit (Warnf_Closed (URL pr1)) s1)
               else
                 (case lastCommitStatusStep opts gitProvider pr1 logMergeFailure s1 of
                    Inl (e, s2) \<Rightarrow> Returned (Some e) s2
                  | Inr (pr2, logMergeFailure2, s2) \<Rightarrow>
                      timeoutCheck clk opts end duration pr2 logMergeFailure2 s2)))"

text \<open>
  The \<^verbatim>\<open>for\<close> loop has no bound of its own, so the model runs it on fuel: \<open>pollLoop n\<close>
  executes at most \<open>n\<close> ticks and answers \<open>Polling\<close> when the loop is still running
  after them.
\<close>

fun pollLoop ::
  "nat \<Rightarrow> 'w Clock \<Rightarrow> DeleteAppOptions \<Rightarrow> 'w GitProvider \<Rightarrow> Time \<Rightarrow> Duration \<Rightarrow> GitPullRequest
     \<Rightarrow> bool \<Rightarrow> 'w sys \<Rightarrow> 'w result" where
  "pollLoop 0 clk opts gitProvider end duration pr logMergeFailure s =
     Polling pr logMergeFailure s"
| "pollLoop (Suc n) clk opts gitProvider end duration pr logMergeFailure s =
     (case pollTick clk opts gitProvider end duration pr logMergeFailure s of
        Polling pr' logMergeFailure' s' \<Rightarrow>
          pollLoop n clk opts gitProvider end duration pr' logMergeFailure' s'
      | r \<Rightarrow> r)"

text \<open>
  \<^verbatim>\<open>waitForGitOpsPullRequest\<close> (lines 236 to 285), with the fuel of the loop as first
  argument. The parameter \<^verbatim>\<open>env\<close> is not used by the function and is left out. The
  caller \<^verbatim>\<open>deleteAppFromEnvironment\<close> passes \<^verbatim>\<open>*o.TimeoutDuration\<close> as \<^verbatim>\<open>duration\<close>
  and \<^verbatim>\<open>time.Now().Add(duration)\<close> as \<^verbatim>\<open>end\<close> (lines 230 to 233).
\<close>

definition waitForGitOpsPullRequest ::
  "nat \<Rightarrow> 'w Clock \<Rightarrow> DeleteAppOptions \<Rightarrow> 'w ReleasePullRequestInfo option \<Rightarrow> Time \<Rightarrow> Duration
     \<Rightarrow> 'w sys \<Rightarrow> 'w result" where
  "waitForGitOpsPullRequest n clk opts pullRequestInfo end duration s =
     (case pullRequestInfo of
        None \<Rightarrow> Returned None s
      | Some info \<Rightarrow>
          pollLoop n clk opts (GitProvider info) end duration (PullRequest info) False
            (emit (Printf_Waiting (URL (PullRequest info))) s))"


section \<open>Observations on traces\<close>

fun isMergeCall :: "event \<Rightarrow> bool" where
  "isMergeCall (Call_MergePullRequest message err) = True"
| "isMergeCall e = False"

text \<open>
  \<open>mergesGuarded prev es\<close>: every call of \<^verbatim>\<open>MergePullRequest\<close> in \<open>es\<close> comes directly
  after a call of \<^verbatim>\<open>PullRequestLastCommitStatus\<close> that returned \<^verbatim>\<open>("success", nil)\<close>;
  \<open>prev\<close> is the event before \<open>es\<close>, if any.
\<close>

fun mergesGuarded :: "event option \<Rightarrow> event list \<Rightarrow> bool" where
  "mergesGuarded prev [] = True"
| "mergesGuarded prev (e # es) =
     ((isMergeCall e \<longrightarrow> prev = Some (Call_PullRequestLastCommitStatus ''success'' None))
      \<and> mergesGuarded (Some e) es)"

text \<open>
  What each returned value rests on: the last event of the trace for the four
  decisions taken from a provider's answer, the clock for the timeout.
\<close>

definition outcomeCause ::
  "'w Clock \<Rightarrow> Time \<Rightarrow> Duration \<Rightarrow> wait_error option \<Rightarrow> 'w sys \<Rightarrow> bool" where
  "outcomeCause clk end duration r s =
     (case r of
        None \<Rightarrow> (case last (trace s) of Printf_Merged url \<Rightarrow> True | _ \<Rightarrow> False)
      | Some (FailedToQueryStatus url e) \<Rightarrow>
          last (trace s) = Call_UpdatePullRequestStatus (Some e)
      | Some (ClosedWithoutMerging url) \<Rightarrow> last (trace s) = Warnf_Closed url
      | Some (LastCommitStatusBad url status sha) \<Rightarrow>
          last (trace s) = Call_PullRequestLastCommitStatus status None
          \<and> (status = ''error'' \<or> status = ''failure'')
      | Some (TimedOutWaiting url waited) \<Rightarrow> waited = duration \<and> end < Now clk (world s))"

section \<open>A simulated provider\<close>

text \<open>
  A provider driven by a script, for running the loop on concrete inputs: the answers
  of tick \<open>i\<close> are the \<open>i\<close>-th entry of the script, the last entry repeats for ever,
  and the empty script answers \<open>pending\<close> for ever. Provider calls take no time and
  \<^verbatim>\<open>time.Sleep\<close> takes exactly the duration asked for (none when it is negative).
\<close>

record response =
  refreshError :: "string option"
  mergedFlag :: "bool option"
  closed :: bool
  headCommitSHA :: string
  ciStatus :: string
  ciError :: "string option"
  mergeError :: "string option"

definition pending :: response where
  "pending = \<lparr>refreshError = None, mergedFlag = None, closed = False,
     headCommitSHA = ''c0ffee'', ciStatus = ''pending'', ciError = None, mergeError = None\<rparr>"

record sim =
  clock :: Time
  tickNo :: nat

fun respAt :: "response list \<Rightarrow> nat \<Rightarrow> response" where
  "respAt [] i = pending"
| "respAt [r] i = r"
| "respAt (r # rs) 0 = r"
| "respAt (r # rs) (Suc i) = respAt rs i"

definition simProvider :: "response list \<Rightarrow> sim GitProvider" where
  "simProvider script =
     \<lparr>UpdatePullRequestStatus = (\<lambda>pr w.
        let r = respAt script (tickNo w) in
        (refreshError r,
         (if refreshError r = None
          then pr\<lparr>LastCommitSha := headCommitSHA r, Merged := mergedFlag r,
                 closedFlag := closed r\<rparr>
          else pr),
         w)),
      PullRequestLastCommitStatus = (\<lambda>pr w.
        let r = respAt script (tickNo w) in ((ciStatus r, ciError r), pr, w)),
      MergePullRequest = (\<lambda>pr message w.
        let r = respAt script (tickNo w) in (mergeError r, pr, w))\<rparr>"

definition simClock :: "sim Clock" where
  "simClock =
     \<lparr>Now = clock,
      Sleep = (\<lambda>d w. \<lparr>clock = clock w + max d 0, tickNo = Suc (tickNo w)\<rparr>)\<rparr>"

definition simStart :: "sim sys" where
  "simStart = \<lparr>world = \<lparr>clock = 0, tickNo = 0\<rparr>, trace = []\<rparr>"

definition simURL :: string where
  "simURL = ''https://git.example/env/pull/7''"

definition simPR :: GitPullRequest where
  "simPR = \<lparr>URL = simURL, LastCommitSha = [], Merged = None, closedFlag = False\<rparr>"

definition simInfo :: "response list \<Rightarrow> sim ReleasePullRequestInfo" where
  "simInfo script = \<lparr>GitProvider = simProvider script, PullRequest = simPR\<rparr>"

text \<open>Options with a poll interval of 20 and a timeout of 40.\<close>

definition simOpts :: "bool \<Rightarrow> DeleteAppOptions" where
  "simOpts noMerge =
     \<lparr>NoMergePullRequest = noMerge, PullRequestPollDuration = Some 20,
      TimeoutDuration = Some 40\<rparr>"

definition mergedAndClosed :: response where
  "mergedAndClosed = pending\<lparr>mergedFlag := Some True, closed := True\<rparr>"

definition closedUnmerged :: response where
  "closedUnmerged = pending\<lparr>mergedFlag := Some False, closed := True\<rparr>"

definition ciFailure :: response where
  "ciFailure = pending\<lparr>ciStatus := ''failure''\<rparr>"


definition refreshFails :: response where
  "refreshFails = pending\<lparr>refreshError := Some ''connection reset by peer''\<rparr>"

definition green :: response where
  "green = pending\<lparr>ciStatus := ''success''\<rparr>"


section \<open>Properties of the poll loop\<close>

lemmas loop_defs = waitForGitOpsPullRequest_def pollTick_def lastCommitStatusStep_def
  timeoutCheck_def emit_def IsClosed_def mergeMessage_def

lemmas sim_defs = simProvider_def simClock_def simStart_def simInfo_def simOpts_def
  pending_def simPR_def simURL_def
subsection \<open>What a tick and the loop add to the trace\<close>

lemma mergesGuarded_weaken: "mergesGuarded None es \<Longrightarrow> mergesGuarded prev es"
  by (cases es) auto

lemma mergesGuarded_append:
  "mergesGuarded prev xs \<Longrightarrow> mergesGuarded None ys \<Longrightarrow> mergesGuarded prev (xs @ ys)"
  by (induction xs arbitrary: prev) (auto intro: mergesGuarded_weaken)

lemma lastCommitStatusStep_trace:
  "\<exists>ext. (case lastCommitStatusStep opts gp pr lmf s of Inl (e, s') \<Rightarrow> trace s' | Inr (pr', lmf', s') \<Rightarrow> trace s') = trace s @ ext
     \<and> mergesGuarded None ext \<and> (NoMergePullRequest opts \<longrightarrow> \<not> list_ex isMergeCall ext)"
  by (auto simp: lastCommitStatusStep_def emit_def Let_def split: prod.splits option.splits)

lemma pollTick_trace:
  "\<exists>ext. trace (sys_of (pollTick clk opts gp end duration pr lmf s)) =
       trace s @ Call_UpdatePullRequestStatus (fst (UpdatePullRequestStatus gp pr (world s))) # ext
     \<and> mergesGuarded None ext \<and> (NoMergePullRequest opts \<longrightarrow> \<not> list_ex isMergeCall ext)"
proof -
  obtain err pr1 w1 where u: "UpdatePullRequestStatus gp pr (world s) = (err, pr1, w1)"
    by (cases "UpdatePullRequestStatus gp pr (world s)") auto
  let ?s1 = "\<lparr>world = w1, trace = trace s @ [Call_UpdatePullRequestStatus err]\<rparr>"
  from lastCommitStatusStep_trace [of opts gp pr1 lmf ?s1]
  obtain ext where e: "(case lastCommitStatusStep opts gp pr1 lmf ?s1 of Inl (e, s') \<Rightarrow> trace s' | Inr (pr', lmf', s') \<Rightarrow> trace s') = trace ?s1 @ ext"
     "mergesGuarded None ext" "NoMergePullRequest opts \<longrightarrow> \<not> list_ex isMergeCall ext"
    by blast
  show ?thesis
    using u e
    by (auto simp: pollTick_def emit_def timeoutCheck_def Let_def list_ex_iff
          split: option.splits sum.splits prod.splits intro!: mergesGuarded_append)
qed


lemma pollLoop_trace:
  "\<exists>ext. trace (sys_of (pollLoop n clk opts gp end duration pr lmf s)) = trace s @ ext
     \<and> mergesGuarded None ext \<and> (NoMergePullRequest opts \<longrightarrow> \<not> list_ex isMergeCall ext)"
proof (induction n arbitrary: pr lmf s)
  case 0
  show ?case by simp
next
  case (Suc n)
  obtain ext1 where t: "trace (sys_of (pollTick clk opts gp end duration pr lmf s)) =
       trace s @ Call_UpdatePullRequestStatus (fst (UpdatePullRequestStatus gp pr (world s))) # ext1"
     "mergesGuarded None ext1" "NoMergePullRequest opts \<longrightarrow> \<not> list_ex isMergeCall ext1"
    using pollTick_trace [of clk opts gp "end" duration pr lmf s] by blast
  have g: "mergesGuarded None
      (Call_UpdatePullRequestStatus (fst (UpdatePullRequestStatus gp pr (world s))) # ext1)"
    using t(2) by (simp add: mergesGuarded_weaken)
  show ?case
  proof (cases "pollTick clk opts gp end duration pr lmf s")
    case (Polling pr' lmf' s')
    obtain ext2 where l: "trace (sys_of (pollLoop n clk opts gp end duration pr' lmf' s')) = trace s' @ ext2"
      "mergesGuarded None ext2" "NoMergePullRequest opts \<longrightarrow> \<not> list_ex isMergeCall ext2"
      using Suc.IH [of pr' lmf' s'] by blast
    have "mergesGuarded None
        ((Call_UpdatePullRequestStatus (fst (UpdatePullRequestStatus gp pr (world s))) # ext1) @ ext2)"
      using g l(2) by (rule mergesGuarded_append)
    then show ?thesis using Polling t l by (auto simp: list_ex_iff)
  next
    case (Returned r s')
    then show ?thesis using t g by (auto simp: list_ex_iff)
  next
    case (Panicked s')
    then show ?thesis using t g by (auto simp: list_ex_iff)
  qed
qed

lemma pollLoop_more_fuel:
  "pollLoop n clk opts gp end duration pr lmf s = Returned r s'
   \<Longrightarrow> pollLoop (n + k) clk opts gp end duration pr lmf s = Returned r s'"
proof (induction n arbitrary: pr lmf s)
  case 0
  then show ?case by simp
next
  case (Suc n)
  then show ?case
    by (cases "pollTick clk opts gp end duration pr lmf s") auto
qed

lemma pollLoop_fuel_mono:
  assumes "pollLoop n clk opts gp end duration pr lmf s = Returned r s'" and "n \<le> m"
  shows "pollLoop m clk opts gp end duration pr lmf s = Returned r s'"
proof -
  from assms(2) obtain k where "m = n + k" using le_Suc_ex by blast
  with pollLoop_more_fuel [OF assms(1), of k] show ?thesis by (simp only:)
qed

lemma pollLoop_first_return:
  "pollLoop N clk opts gp end duration pr lmf s = Returned r s'
   \<Longrightarrow> \<exists>n<N. pollLoop (Suc n) clk opts gp end duration pr lmf s = Returned r s'
          \<and> (\<forall>m\<le>n. \<exists>pr' lmf' s''. pollLoop m clk opts gp end duration pr lmf s = Polling pr' lmf' s'')"
proof (induction N arbitrary: pr lmf s)
  case 0
  then show ?case by simp
next
  case (Suc N)
  show ?case
  proof (cases "pollTick clk opts gp end duration pr lmf s")
    case (Polling pr1 lmf1 s1)
    with Suc.prems have "pollLoop N clk opts gp end duration pr1 lmf1 s1 = Returned r s'" by simp
    from Suc.IH [OF this] obtain n where n: "n < N"
      "pollLoop (Suc n) clk opts gp end duration pr1 lmf1 s1 = Returned r s'"
      "\<forall>m\<le>n. \<exists>pr' lmf' s''. pollLoop m clk opts gp end duration pr1 lmf1 s1 = Polling pr' lmf' s''"
      by blast
    have "\<forall>m\<le>Suc n. \<exists>pr' lmf' s''. pollLoop m clk opts gp end duration pr lmf s = Polling pr' lmf' s''"
    proof (intro allI impI)
      fix m assume "m \<le> Suc n"
      then show "\<exists>pr' lmf' s''. pollLoop m clk opts gp end duration pr lmf s = Polling pr' lmf' s''"
        using n(3) Polling by (cases m) auto
    qed
    moreover have "pollLoop (Suc (Suc n)) clk opts gp end duration pr lmf s = Returned r s'"
      using n(2) Polling by simp
    ultimately show ?thesis using n(1) by (intro exI [of _ "Suc n"]) simp
  next
    case (Returned r1 s1)
    with Suc.prems show ?thesis by (intro exI [of _ 0]) simp
  next
    case (Panicked s1)
    with Suc.prems show ?thesis by simp
  qed
qed

subsection \<open>The clock moves forward\<close>

lemma lastCommitStatusStep_clock:
  assumes st: "\<And>pr w. Now clk w \<le> Now clk (snd (snd (PullRequestLastCommitStatus gp pr w)))"
    and mg: "\<And>pr message w. Now clk w \<le> Now clk (snd (snd (MergePullRequest gp pr message w)))"
    and r: "lastCommitStatusStep opts gp pr lmf s = Inr (pr', lmf', s')"
  shows "Now clk (world s) \<le> Now clk (world s')"
proof -
  obtain status err pr2 w2 where c: "PullRequestLastCommitStatus gp pr (world s) = ((status, err), pr2, w2)"
    by (metis prod.exhaust)
  obtain merr pr3 w3 where m: "MergePullRequest gp pr2 mergeMessage w2 = (merr, pr3, w3)"
    by (metis prod.exhaust)
  have 1: "Now clk (world s) \<le> Now clk w2" using st [of "world s" pr] c by simp
  have 2: "Now clk w2 \<le> Now clk w3" using mg [of w2 pr2 mergeMessage] m by simp
  show ?thesis
    using r c m 1 2
    by (auto simp: lastCommitStatusStep_def emit_def Let_def split: option.splits if_splits)
qed

lemma pollTick_progress:
  assumes sl: "\<And>w. Now clk w + d \<le> Now clk (Sleep clk d w)"
    and up: "\<And>pr w. Now clk w \<le> Now clk (snd (snd (UpdatePullRequestStatus gp pr w)))"
    and st: "\<And>pr w. Now clk w \<le> Now clk (snd (snd (PullRequestLastCommitStatus gp pr w)))"
    and mg: "\<And>pr message w. Now clk w \<le> Now clk (snd (snd (MergePullRequest gp pr message w)))"
    and pd: "PullRequestPollDuration opts = Some d"
  shows "(\<exists>r s'. pollTick clk opts gp end duration pr lmf s = Returned r s')
       \<or> (\<exists>pr' lmf' s'. pollTick clk opts gp end duration pr lmf s = Polling pr' lmf' s'
             \<and> Now clk (world s) \<le> end \<and> Now clk (world s) + d \<le> Now clk (world s'))"
proof -
  obtain err pr1 w1 where u: "UpdatePullRequestStatus gp pr (world s) = (err, pr1, w1)"
    by (metis prod.exhaust)
  have 1: "Now clk (world s) \<le> Now clk w1" using up [of "world s" pr] u by simp
  let ?s1 = "\<lparr>world = w1, trace = trace s @ [Call_UpdatePullRequestStatus err]\<rparr>"
  show ?thesis
  proof (cases "err = None \<and> Merged pr1 \<noteq> Some True \<and> \<not> IsClosed pr1")
    case False
    then show ?thesis using u
      by (auto simp: pollTick_def Let_def split: option.splits)
  next
    case True
    show ?thesis
    proof (cases "lastCommitStatusStep opts gp pr1 lmf ?s1")
      case (Inl a)
      then show ?thesis using u True
        by (cases a) (simp add: pollTick_def Let_def)
    next
      case (Inr b)
      then obtain pr2 lmf2 s2 where b: "lastCommitStatusStep opts gp pr1 lmf ?s1 = Inr (pr2, lmf2, s2)"
        by (cases b) auto
      from lastCommitStatusStep_clock [OF st mg b] have 2: "Now clk w1 \<le> Now clk (world s2)" by simp
      have 3: "Now clk (world s2) + d \<le> Now clk (Sleep clk d (world s2))" by (rule sl)
      have t: "pollTick clk opts gp end duration pr lmf s = timeoutCheck clk opts end duration pr2 lmf2 s2"
        using u True b by (simp add: pollTick_def Let_def)
      show ?thesis
      proof (cases "end < Now clk (world s2)")
        case True
        then show ?thesis by (simp add: t timeoutCheck_def)
      next
        case False
        then show ?thesis using 1 2 3 pd by (simp add: t timeoutCheck_def)
      qed
    qed
  qed
qed

lemma pollLoop_returns_within:
  assumes sl: "\<And>w. Now clk w + d \<le> Now clk (Sleep clk d w)"
    and up: "\<And>pr w. Now clk w \<le> Now clk (snd (snd (UpdatePullRequestStatus gp pr w)))"
    and st: "\<And>pr w. Now clk w \<le> Now clk (snd (snd (PullRequestLastCommitStatus gp pr w)))"
    and mg: "\<And>pr message w. Now clk w \<le> Now clk (snd (snd (MergePullRequest gp pr message w)))"
    and pd: "PullRequestPollDuration opts = Some d" and d: "0 < d"
  shows "end - Now clk (world s) < int k * d
         \<Longrightarrow> \<exists>r s'. pollLoop (Suc k) clk opts gp end duration pr lmf s = Returned r s'"
proof (induction k arbitrary: pr lmf s)
  case 0
  with pollTick_progress [OF sl up st mg pd, of "end" duration pr lmf s]
  show ?case by auto
next
  case (Suc k)
  from pollTick_progress [OF sl up st mg pd, of "end" duration pr lmf s]
  show ?case
  proof
    assume "\<exists>r s'. pollTick clk opts gp end duration pr lmf s = Returned r s'"
    then show ?thesis by auto
  next
    assume "\<exists>pr' lmf' s'. pollTick clk opts gp end duration pr lmf s = Polling pr' lmf' s'
             \<and> Now clk (world s) \<le> end \<and> Now clk (world s) + d \<le> Now clk (world s')"
    then obtain pr' lmf' s' where p: "pollTick clk opts gp end duration pr lmf s = Polling pr' lmf' s'"
      "Now clk (world s) + d \<le> Now clk (world s')" by blast
    have "end - Now clk (world s') < int k * d"
      using Suc.prems p(2) by (simp add: algebra_simps)
    from Suc.IH [OF this, of pr' lmf'] show ?thesis using p(1) by simp
  qed
qed

lemma ticks_bound:
  fixes T d :: int
  assumes "0 < d"
  shows "T < int (nat (T div d) + 1) * d"
proof (cases "0 \<le> T")
  case True
  then have "0 \<le> T div d" using assms by (simp add: pos_imp_zdiv_nonneg_iff)
  then have "int (nat (T div d) + 1) * d = (T div d) * d + d" by (simp add: algebra_simps)
  moreover have "T = (T div d) * d + T mod d" by simp
  moreover have "T mod d < d" using assms by simp
  ultimately show ?thesis by linarith
next
  case False
  then have "T div d < 0" using assms by (simp add: pos_imp_zdiv_neg_iff)
  then show ?thesis using False assms by simp
qed


subsection \<open>What a returned value rests on\<close>

lemma lastCommitStatusStep_cause:
  "lastCommitStatusStep opts gp pr lmf s = Inl (e, s') \<Longrightarrow> outcomeCause clk end duration (Some e) s'"
  by (auto simp: lastCommitStatusStep_def outcomeCause_def emit_def Let_def
        split: prod.splits option.splits if_splits)

lemma pollTick_cause:
  assumes "pollTick clk opts gp end duration pr lmf s = Returned r s'"
  shows "outcomeCause clk end duration r s'"
proof -
  obtain err pr1 w1 where u: "UpdatePullRequestStatus gp pr (world s) = (err, pr1, w1)"
    by (metis prod.exhaust)
  let ?s1 = "\<lparr>world = w1, trace = trace s @ [Call_UpdatePullRequestStatus err]\<rparr>"
  show ?thesis
  proof (cases "err = None \<and> Merged pr1 \<noteq> Some True \<and> \<not> IsClosed pr1")
    case False
    then show ?thesis using u assms
      by (auto simp: pollTick_def outcomeCause_def emit_def Let_def split: option.splits if_splits)
  next
    case True
    show ?thesis
    proof (cases "lastCommitStatusStep opts gp pr1 lmf ?s1")
      case (Inl a)
      obtain e s2 where a: "a = (e, s2)" by (cases a)
      have "r = Some e" "s' = s2"
        using u True Inl a assms by (simp_all add: pollTick_def Let_def)
      then show ?thesis
        using lastCommitStatusStep_cause [of opts gp pr1 lmf ?s1 e s2 clk "end" duration] Inl a
        by simp
    next
      case (Inr b)
      obtain pr2 lmf2 s2 where b: "b = (pr2, lmf2, s2)" by (cases b)
      have "timeoutCheck clk opts end duration pr2 lmf2 s2 = Returned r s'"
        using u True Inr b assms by (simp add: pollTick_def Let_def)
      then show ?thesis
        by (auto simp: timeoutCheck_def outcomeCause_def split: if_splits option.splits)
    qed
  qed
qed

lemma pollLoop_cause:
  "pollLoop n clk opts gp end duration pr lmf s = Returned r s'
   \<Longrightarrow> outcomeCause clk end duration r s'"
proof (induction n arbitrary: pr lmf s)
  case 0
  then show ?case by simp
next
  case (Suc n)
  then show ?case
    by (cases "pollTick clk opts gp end duration pr lmf s") (auto dest: pollTick_cause)
qed

lemma pollTick_open_returns_timeout:
  assumes ok: "\<And>pr w. fst (UpdatePullRequestStatus gp pr w) = None"
    and nm: "\<And>pr w. Merged (fst (snd (UpdatePullRequestStatus gp pr w))) \<noteq> Some True"
    and nc: "\<And>pr w. \<not> IsClosed (fst (snd (UpdatePullRequestStatus gp pr w)))"
    and ci: "\<And>pr w. snd (fst (PullRequestLastCommitStatus gp pr w)) = None \<longrightarrow>
               fst (fst (PullRequestLastCommitStatus gp pr w)) \<noteq> ''failure'' \<and>
               fst (fst (PullRequestLastCommitStatus gp pr w)) \<noteq> ''error''"
    and r: "pollTick clk opts gp end duration pr lmf s = Returned r s'"
  shows "\<exists>url. r = Some (TimedOutWaiting url duration) \<and> end < Now clk (world s')"
proof -
  obtain err pr1 w1 where u: "UpdatePullRequestStatus gp pr (world s) = (err, pr1, w1)"
    by (metis prod.exhaust)
  have o: "err = None" "Merged pr1 \<noteq> Some True" "\<not> IsClosed pr1"
    using ok [of pr "world s"] nm [of pr "world s"] nc [of pr "world s"] u by simp_all
  let ?s1 = "\<lparr>world = w1, trace = trace s @ [Call_UpdatePullRequestStatus err]\<rparr>"
  obtain status serr pr2 w2 where c:
    "PullRequestLastCommitStatus gp pr1 w1 = ((status, serr), pr2, w2)"
    by (metis prod.exhaust)
  have n: "serr = None \<longrightarrow> status \<noteq> ''failure'' \<and> status \<noteq> ''error''"
    using ci [of pr1 w1] c by simp
  show ?thesis
  proof (cases "lastCommitStatusStep opts gp pr1 lmf ?s1")
    case (Inl a)
    then show ?thesis using c n
      by (auto simp: lastCommitStatusStep_def Let_def split: option.splits if_splits prod.splits)
  next
    case (Inr b)
    obtain pr3 lmf3 s3 where b: "b = (pr3, lmf3, s3)" by (cases b)
    have "timeoutCheck clk opts end duration pr3 lmf3 s3 = Returned r s'"
      using u o Inr b r by (simp add: pollTick_def Let_def)
    then show ?thesis
      by (auto simp: timeoutCheck_def split: if_splits option.splits)
  qed
qed

lemma pollLoop_open_returns_timeout:
  assumes ok: "\<And>pr w. fst (UpdatePullRequestStatus gp pr w) = None"
    and nm: "\<And>pr w. Merged (fst (snd (UpdatePullRequestStatus gp pr w))) \<noteq> Some True"
    and nc: "\<And>pr w. \<not> IsClosed (fst (snd (UpdatePullRequestStatus gp pr w)))"
    and ci: "\<And>pr w. snd (fst (PullRequestLastCommitStatus gp pr w)) = None \<longrightarrow>
               fst (fst (PullRequestLastCommitStatus gp pr w)) \<noteq> ''failure'' \<and>
               fst (fst (PullRequestLastCommitStatus gp pr w)) \<noteq> ''error''"
  shows "pollLoop n clk opts gp end duration pr lmf s = Returned r s'
         \<Longrightarrow> \<exists>url. r = Some (TimedOutWaiting url duration) \<and> end < Now clk (world s')"
proof (induction n arbitrary: pr lmf s)
  case 0
  then show ?case by simp
next
  case (Suc n)
  show ?case
  proof (cases "pollTick clk opts gp end duration pr lmf s")
    case (Polling pr1 lmf1 s1)
    with Suc.prems have "pollLoop n clk opts gp end duration pr1 lmf1 s1 = Returned r s'" by simp
    then show ?thesis by (rule Suc.IH)
  next
    case (Returned r1 s1)
    with Suc.prems have "pollTick clk opts gp end duration pr lmf s = Returned r s'" by simp
    then show ?thesis by (rule pollTick_open_returns_timeout [OF ok nm nc ci])
  next
    case (Panicked s1)
    with Suc.prems show ?thesis by simp
  qed
qed



section \<open>The claims\<close>

text \<open>
  In the theorems below a tick is \<open>pollLoop (Suc n)\<close> started from any pull request,
  any \<^verbatim>\<open>logMergeFailure\<close> and any state \<open>s\<close>: the first tick of an invocation or a
  later one. The answers of the provider on that tick are hypotheses.
\<close>

text \<open>
  C1, as amended. The claim says that a last commit status of \<^verbatim>\<open>failure\<close> or \<^verbatim>\<open>error\<close>
  is a soft failure and that the loop keeps polling until the timeout. Line 273 does
  the opposite. Amended: for every poll tick in which the refresh succeeds, the pull
  request is neither merged nor closed and the last commit status query succeeds with
  \<^verbatim>\<open>failure\<close> or \<^verbatim>\<open>error\<close>, the loop returns on that tick an error naming the pull
  request URL, the status and the commit; it makes no merge call, does not sleep and
  runs no further tick.
\<close>

theorem bad_commit_status_returns_error:
  assumes "UpdatePullRequestStatus gitProvider pr (world s) = (None, pr1, w1)"
    and "Merged pr1 \<noteq> Some True"
    and "\<not> IsClosed pr1"
    and "PullRequestLastCommitStatus gitProvider pr1 w1 = ((status, None), pr2, w2)"
    and "status = ''failure'' \<or> status = ''error''"
  shows "pollLoop (Suc n) clk opts gitProvider end duration pr logMergeFailure s =
     Returned (Some (LastCommitStatusBad (URL pr2) status (LastCommitSha pr2)))
       \<lparr>world = w2,
        trace = trace s @ [Call_UpdatePullRequestStatus None,
                           Call_PullRequestLastCommitStatus status None]\<rparr>"
  using assms by (auto simp: pollTick_def lastCommitStatusStep_def)

theorem bad_commit_status_returns_error_witness:
  "waitForGitOpsPullRequest 1 simClock (simOpts False)
      (Some (simInfo [pending\<lparr>ciStatus := ''error''\<rparr>])) 40 40 simStart =
     Returned (Some (LastCommitStatusBad simURL ''error'' ''c0ffee''))
       \<lparr>world = \<lparr>clock = 0, tickNo = 0\<rparr>,
        trace = [Printf_Waiting simURL, Call_UpdatePullRequestStatus None,
                 Call_PullRequestLastCommitStatus ''error'' None]\<rparr>"
proof -
  let ?gp = "simProvider [pending\<lparr>ciStatus := ''error''\<rparr>]"
  let ?s = "emit (Printf_Waiting simURL) simStart"
  let ?pr1 = "\<lparr>URL = simURL, LastCommitSha = ''c0ffee'', Merged = None, closedFlag = False\<rparr>"
  let ?w = "\<lparr>clock = 0, tickNo = 0\<rparr>"
  have u: "UpdatePullRequestStatus ?gp simPR (world ?s) = (None, ?pr1, ?w)"
    by (simp add: sim_defs emit_def)
  have m: "Merged ?pr1 \<noteq> Some True" by simp
  have c: "\<not> IsClosed ?pr1" by (simp add: IsClosed_def)
  have q: "PullRequestLastCommitStatus ?gp ?pr1 ?w = ((''error'', None), ?pr1, ?w)"
    by (simp add: sim_defs)
  have f: "''error'' = ''failure'' \<or> ''error'' = ''error''" by simp
  show ?thesis
    using bad_commit_status_returns_error [OF u m c q f,
        where n = 0 and clk = simClock and opts = "simOpts False" and ?end = 40
          and duration = 40 and logMergeFailure = False]
    by (simp add: waitForGitOpsPullRequest_def simInfo_def simStart_def simPR_def emit_def)
qed

text \<open>
  The scenario of the spec, a provider answering \<^verbatim>\<open>failure\<close> on every tick with
  a timeout of twice the poll interval: the first tick returns the error of line 274,
  not the timeout.
\<close>

theorem ci_failure_keeps_polling_counterexample:
  "waitForGitOpsPullRequest 4 simClock (simOpts False) (Some (simInfo [ciFailure])) 40 40
      simStart =
     Returned (Some (LastCommitStatusBad simURL ''failure'' ''c0ffee''))
       \<lparr>world = \<lparr>clock = 0, tickNo = 0\<rparr>,
        trace = [Printf_Waiting simURL, Call_UpdatePullRequestStatus None,
                 Call_PullRequestLastCommitStatus ''failure'' None]\<rparr>"
  by (simp add: loop_defs sim_defs ciFailure_def numeral_eq_Suc)

text \<open>
  C2, as amended. The claim says that a failing \<^verbatim>\<open>UpdatePullRequestStatus\<close> is logged
  and the loop goes on to the next tick. Lines 245 to 247 return instead. Amended: for
  every poll tick, if \<^verbatim>\<open>UpdatePullRequestStatus\<close> fails, the loop returns on that tick
  an error holding the pull request URL and the provider's error; it writes no log
  line, makes no further provider call and runs no further tick.
\<close>

theorem refresh_error_returns_error:
  assumes "UpdatePullRequestStatus gitProvider pr (world s) = (Some e, pr1, w1)"
  shows "pollLoop (Suc n) clk opts gitProvider end duration pr logMergeFailure s =
     Returned (Some (FailedToQueryStatus (URL pr1) e))
       \<lparr>world = w1, trace = trace s @ [Call_UpdatePullRequestStatus (Some e)]\<rparr>"
  using assms by (simp add: pollTick_def)

text \<open>The second tick of a run whose first tick was quiet.\<close>

theorem refresh_error_returns_error_witness:
  "pollLoop 1 simClock (simOpts False) (simProvider [pending, refreshFails]) 40 40 simPR False
      \<lparr>world = \<lparr>clock = 20, tickNo = 1\<rparr>, trace = [Call_Sleep 20]\<rparr> =
     Returned (Some (FailedToQueryStatus simURL ''connection reset by peer''))
       \<lparr>world = \<lparr>clock = 20, tickNo = 1\<rparr>,
        trace = [Call_Sleep 20,
                 Call_UpdatePullRequestStatus (Some ''connection reset by peer'')]\<rparr>"
proof -
  let ?s = "\<lparr>world = \<lparr>clock = 20, tickNo = 1\<rparr>, trace = [Call_Sleep 20]\<rparr>"
  have u: "UpdatePullRequestStatus (simProvider [pending, refreshFails]) simPR (world ?s) =
      (Some ''connection reset by peer'', simPR, \<lparr>clock = 20, tickNo = 1\<rparr>)"
    by (simp add: sim_defs refreshFails_def)
  show ?thesis
    using refresh_error_returns_error [OF u,
        where n = 0 and clk = simClock and opts = "simOpts False" and ?end = 40
          and duration = 40 and logMergeFailure = False]
    by (simp add: simPR_def)
qed

theorem refresh_error_continues_counterexample:
  "waitForGitOpsPullRequest 3 simClock (simOpts False) (Some (simInfo [refreshFails])) 40 40
      simStart =
     Returned (Some (FailedToQueryStatus simURL ''connection reset by peer''))
       \<lparr>world = \<lparr>clock = 0, tickNo = 0\<rparr>,
        trace = [Printf_Waiting simURL,
                 Call_UpdatePullRequestStatus (Some ''connection reset by peer'')]\<rparr>"
  by (simp add: loop_defs sim_defs refreshFails_def numeral_eq_Suc)

text \<open>
  C3, as amended. The claim allows three terminal outcomes; the function has five, since
  a failed refresh (line 246) and a last commit status of \<^verbatim>\<open>error\<close> or \<^verbatim>\<open>failure\<close>
  (line 274) return errors of their own. Amended: for every behaviour of the provider,
  when the poll interval is set and positive, \<^verbatim>\<open>time.Sleep\<close> advances the clock by at
  least the interval and no provider call moves the clock backwards, the loop returns
  within \<open>max 0 ((end - now) div interval) + 2\<close> ticks, and its value is exactly one of
  five: \<^verbatim>\<open>nil\<close> right after the merged line was printed; the closed-without-merging error
  right after the closed warning; the failed-to-query error right after a failed
  refresh; the last-commit-status error right after a status query that answered
  \<^verbatim>\<open>error\<close> or \<^verbatim>\<open>failure\<close>; the timed-out error with the clock strictly past \<^verbatim>\<open>end\<close>.
  Running the loop for more ticks gives the same value and the same trace: nothing
  happens after the return.
\<close>

theorem poll_loop_terminal_outcomes:
  assumes "\<And>w. Now clk w + d \<le> Now clk (Sleep clk d w)"
    and "\<And>pr w. Now clk w \<le> Now clk (snd (snd (UpdatePullRequestStatus gitProvider pr w)))"
    and "\<And>pr w. Now clk w \<le> Now clk (snd (snd (PullRequestLastCommitStatus gitProvider pr w)))"
    and "\<And>pr message w.
           Now clk w \<le> Now clk (snd (snd (MergePullRequest gitProvider pr message w)))"
    and "PullRequestPollDuration opts = Some d"
    and "0 < d"
  shows "\<exists>r s'.
     (\<forall>m \<ge> nat ((end - Now clk (world s)) div d) + 2.
        pollLoop m clk opts gitProvider end duration pr logMergeFailure s = Returned r s')
     \<and> outcomeCause clk end duration r s'"
proof -
  let ?k = "nat ((end - Now clk (world s)) div d) + 1"
  have "end - Now clk (world s) < int ?k * d"
    using assms(6) by (rule ticks_bound)
  from pollLoop_returns_within [OF assms this]
  obtain r s' where
    r: "pollLoop (Suc ?k) clk opts gitProvider end duration pr logMergeFailure s = Returned r s'"
    by blast
  have "pollLoop m clk opts gitProvider end duration pr logMergeFailure s = Returned r s'"
    if "Suc ?k \<le> m" for m
    using r that by (rule pollLoop_fuel_mono)
  moreover have "outcomeCause clk end duration r s'"
    using r by (rule pollLoop_cause)
  ultimately show ?thesis by auto
qed

text \<open>
  A pull request closed on the second tick: four ticks of fuel are enough by the bound,
  and nine give the same result.
\<close>

theorem poll_loop_terminal_outcomes_witness:
  "pollLoop 9 simClock (simOpts False) (simProvider [pending, closedUnmerged]) 40 40 simPR False
      simStart =
     Returned (Some (ClosedWithoutMerging simURL))
       \<lparr>world = \<lparr>clock = 20, tickNo = 1\<rparr>,
        trace = [Call_UpdatePullRequestStatus None,
                 Call_PullRequestLastCommitStatus ''pending'' None, Call_Sleep 20,
                 Call_UpdatePullRequestStatus None, Warnf_Closed simURL]\<rparr>"
proof -
  let ?gp = "simProvider [pending, closedUnmerged]"
  have sl: "\<And>w. Now simClock w + 20 \<le> Now simClock (Sleep simClock 20 w)"
    by (simp add: simClock_def)
  have up: "\<And>pr w. Now simClock w \<le> Now simClock (snd (snd (UpdatePullRequestStatus ?gp pr w)))"
    by (simp add: simClock_def simProvider_def Let_def)
  have st: "\<And>pr w. Now simClock w
      \<le> Now simClock (snd (snd (PullRequestLastCommitStatus ?gp pr w)))"
    by (simp add: simClock_def simProvider_def Let_def)
  have mg: "\<And>pr message w. Now simClock w
      \<le> Now simClock (snd (snd (MergePullRequest ?gp pr message w)))"
    by (simp add: simClock_def simProvider_def Let_def)
  have pd: "PullRequestPollDuration (simOpts False) = Some 20" by (simp add: simOpts_def)
  have d: "(0::int) < 20" by simp
  from poll_loop_terminal_outcomes [OF sl up st mg pd d,
      where ?end = 40 and s = simStart and duration = 40 and pr = simPR
        and logMergeFailure = False]
  obtain r s' where a: "\<forall>m \<ge> nat ((40 - Now simClock (world simStart)) div 20) + 2.
      pollLoop m simClock (simOpts False) ?gp 40 40 simPR False simStart = Returned r s'"
    by blast
  have b: "nat ((40 - Now simClock (world simStart)) div 20) + 2 = 4"
    by (simp add: simClock_def simStart_def)
  have 4: "pollLoop 4 simClock (simOpts False) ?gp 40 40 simPR False simStart = Returned r s'"
    and 9: "pollLoop 9 simClock (simOpts False) ?gp 40 40 simPR False simStart = Returned r s'"
    using a b by simp_all
  have "pollLoop 4 simClock (simOpts False) ?gp 40 40 simPR False simStart =
     Returned (Some (ClosedWithoutMerging simURL))
       \<lparr>world = \<lparr>clock = 20, tickNo = 1\<rparr>,
        trace = [Call_UpdatePullRequestStatus None,
                 Call_PullRequestLastCommitStatus ''pending'' None, Call_Sleep 20,
                 Call_UpdatePullRequestStatus None, Warnf_Closed simURL]\<rparr>"
    by (simp add: pollTick_def lastCommitStatusStep_def timeoutCheck_def emit_def IsClosed_def
          sim_defs closedUnmerged_def numeral_eq_Suc)
  with 4 9 show ?thesis by simp
qed

text \<open>
  A refresh that fails on the third tick: the loop returns the error of line 246,
  which is none of the three outcomes of the claim.
\<close>

theorem three_terminal_outcomes_counterexample:
  "waitForGitOpsPullRequest 5 simClock (simOpts False)
      (Some (simInfo [pending, pending, refreshFails])) 100 100 simStart =
     Returned (Some (FailedToQueryStatus simURL ''connection reset by peer''))
       \<lparr>world = \<lparr>clock = 40, tickNo = 2\<rparr>,
        trace = [Printf_Waiting simURL,
                 Call_UpdatePullRequestStatus None,
                 Call_PullRequestLastCommitStatus ''pending'' None, Call_Sleep 20,
                 Call_UpdatePullRequestStatus None,
                 Call_PullRequestLastCommitStatus ''pending'' None, Call_Sleep 20,
                 Call_UpdatePullRequestStatus (Some ''connection reset by peer'')]\<rparr>
   \<and> Some (FailedToQueryStatus simURL ''connection reset by peer'')
       \<notin> {None, Some (ClosedWithoutMerging simURL), Some (TimedOutWaiting simURL 100)}"
  by (simp add: waitForGitOpsPullRequest_def pollTick_def lastCommitStatusStep_def
        timeoutCheck_def emit_def IsClosed_def sim_defs refreshFails_def numeral_eq_Suc)




text \<open>
  C5. For every poll tick in which the refreshed pull request reports both merged and
  closed, the loop returns \<^verbatim>\<open>nil\<close> (the merged outcome): the merged check of line 249
  comes before the closed check of line 253.
\<close>

theorem merged_takes_precedence:
  assumes "UpdatePullRequestStatus gitProvider pr (world s) = (None, pr1, w1)"
    and "Merged pr1 = Some True"
    and "IsClosed pr1"
  shows "pollLoop (Suc n) clk opts gitProvider end duration pr logMergeFailure s =
     Returned None
       \<lparr>world = w1,
        trace = trace s @ [Call_UpdatePullRequestStatus None, Printf_Merged (URL pr1)]\<rparr>"
  using assms by (simp add: pollTick_def emit_def)

theorem merged_takes_precedence_witness:
  "IsClosed \<lparr>URL = simURL, LastCommitSha = ''c0ffee'', Merged = Some True, closedFlag = True\<rparr>
   \<and> waitForGitOpsPullRequest 1 simClock (simOpts False) (Some (simInfo [mergedAndClosed]))
        40 40 simStart =
       Returned None
         \<lparr>world = \<lparr>clock = 0, tickNo = 0\<rparr>,
          trace = [Printf_Waiting simURL, Call_UpdatePullRequestStatus None,
                   Printf_Merged simURL]\<rparr>"
proof -
  let ?pr1 = "\<lparr>URL = simURL, LastCommitSha = ''c0ffee'', Merged = Some True, closedFlag = True\<rparr>"
  let ?s = "emit (Printf_Waiting simURL) simStart"
  have u: "UpdatePullRequestStatus (simProvider [mergedAndClosed]) simPR (world ?s) =
      (None, ?pr1, \<lparr>clock = 0, tickNo = 0\<rparr>)"
    by (simp add: sim_defs mergedAndClosed_def emit_def)
  have m: "Merged ?pr1 = Some True" by simp
  have c: "IsClosed ?pr1" by (simp add: IsClosed_def)
  show ?thesis
    using c merged_takes_precedence [OF u m c,
        where n = 0 and clk = simClock and opts = "simOpts False" and ?end = 40
          and duration = 40 and logMergeFailure = False]
    by (simp add: waitForGitOpsPullRequest_def simInfo_def simStart_def simPR_def emit_def)
qed

text \<open>
  C6, as amended. The claim fails in two ways. A pull request that is never merged or
  closed can still end the loop before the timeout, through a failed refresh or a last
  commit status of \<^verbatim>\<open>error\<close> or \<^verbatim>\<open>failure\<close>. And \<^verbatim>\<open>time.Now().After(end)\<close> is strict:
  a tick whose check reads exactly \<^verbatim>\<open>end\<close> sleeps and polls again, so the ticks can
  number the quotient plus two. Amended: for every behaviour of the provider in which
  every refresh succeeds, the pull request is never merged or closed and no successful
  status query answers \<^verbatim>\<open>error\<close> or \<^verbatim>\<open>failure\<close>, when the poll interval is set and
  positive, \<^verbatim>\<open>time.Sleep\<close> advances the clock by at least the interval and no provider
  call moves the clock backwards, the loop returns the timed-out error, on the first
  tick whose timeout check reads a time strictly after \<^verbatim>\<open>end\<close> (every tick before it
  keeps polling), and the number of ticks is at most
  \<open>max 0 ((end - now) div interval) + 2\<close>.
\<close>

theorem open_pull_request_times_out:
  assumes "\<And>w. Now clk w + d \<le> Now clk (Sleep clk d w)"
    and "\<And>pr w. Now clk w \<le> Now clk (snd (snd (UpdatePullRequestStatus gitProvider pr w)))"
    and "\<And>pr w. Now clk w \<le> Now clk (snd (snd (PullRequestLastCommitStatus gitProvider pr w)))"
    and "\<And>pr message w.
           Now clk w \<le> Now clk (snd (snd (MergePullRequest gitProvider pr message w)))"
    and "PullRequestPollDuration opts = Some d"
    and "0 < d"
    and "\<And>pr w. fst (UpdatePullRequestStatus gitProvider pr w) = None"
    and "\<And>pr w. Merged (fst (snd (UpdatePullRequestStatus gitProvider pr w))) \<noteq> Some True"
    and "\<And>pr w. \<not> IsClosed (fst (snd (UpdatePullRequestStatus gitProvider pr w)))"
    and "\<And>pr w. snd (fst (PullRequestLastCommitStatus gitProvider pr w)) = None \<longrightarrow>
           fst (fst (PullRequestLastCommitStatus gitProvider pr w)) \<noteq> ''failure'' \<and>
           fst (fst (PullRequestLastCommitStatus gitProvider pr w)) \<noteq> ''error''"
  shows "\<exists>n url s'.
       Suc n \<le> nat ((end - Now clk (world s)) div d) + 2
     \<and> pollLoop (Suc n) clk opts gitProvider end duration pr logMergeFailure s =
         Returned (Some (TimedOutWaiting url duration)) s'
     \<and> end < Now clk (world s')
     \<and> (\<forall>m\<le>n. \<exists>pr' logMergeFailure' s''.
           pollLoop m clk opts gitProvider end duration pr logMergeFailure s =
             Polling pr' logMergeFailure' s'')"
proof -
  let ?k = "nat ((end - Now clk (world s)) div d) + 1"
  have "end - Now clk (world s) < int ?k * d"
    using assms(6) by (rule ticks_bound)
  from pollLoop_returns_within [OF assms(1-6) this]
  obtain r s' where
    "pollLoop (Suc ?k) clk opts gitProvider end duration pr logMergeFailure s = Returned r s'"
    by blast
  from pollLoop_first_return [OF this]
  obtain n where n: "n < Suc ?k"
    and r: "pollLoop (Suc n) clk opts gitProvider end duration pr logMergeFailure s = Returned r s'"
    and p: "\<forall>m\<le>n. \<exists>pr' logMergeFailure' s''.
       pollLoop m clk opts gitProvider end duration pr logMergeFailure s =
         Polling pr' logMergeFailure' s''"
    by blast
  from pollLoop_open_returns_timeout [OF assms(7-10) r]
  obtain url where "r = Some (TimedOutWaiting url duration)" "end < Now clk (world s')"
    by blast
  with n r p show ?thesis by (intro exI [of _ n] exI [of _ url] exI [of _ s']) simp
qed

text \<open>
  A provider that answers \<open>pending\<close> for ever, from time 0 with \<^verbatim>\<open>end\<close> at 40 and an
  interval of 20.
\<close>

theorem open_pull_request_times_out_witness:
  "\<exists>n url s'.
       Suc n \<le> 4
     \<and> pollLoop (Suc n) simClock (simOpts False) (simProvider [pending]) 40 40 simPR False
         simStart = Returned (Some (TimedOutWaiting url 40)) s'
     \<and> 40 < clock (world s')
     \<and> (\<forall>m\<le>n. \<exists>pr' logMergeFailure' s''.
           pollLoop m simClock (simOpts False) (simProvider [pending]) 40 40 simPR False
             simStart = Polling pr' logMergeFailure' s'')"
proof -
  let ?gp = "simProvider [pending]"
  have sl: "\<And>w. Now simClock w + 20 \<le> Now simClock (Sleep simClock 20 w)"
    by (simp add: simClock_def)
  have up: "\<And>pr w. Now simClock w \<le> Now simClock (snd (snd (UpdatePullRequestStatus ?gp pr w)))"
    by (simp add: simClock_def simProvider_def Let_def)
  have st: "\<And>pr w. Now simClock w
      \<le> Now simClock (snd (snd (PullRequestLastCommitStatus ?gp pr w)))"
    by (simp add: simClock_def simProvider_def Let_def)
  have mg: "\<And>pr message w. Now simClock w
      \<le> Now simClock (snd (snd (MergePullRequest ?gp pr message w)))"
    by (simp add: simClock_def simProvider_def Let_def)
  have pd: "PullRequestPollDuration (simOpts False) = Some 20" by (simp add: simOpts_def)
  have d: "(0::int) < 20" by simp
  have ok: "\<And>pr w. fst (UpdatePullRequestStatus ?gp pr w) = None"
    by (simp add: simProvider_def pending_def Let_def)
  have nm: "\<And>pr w. Merged (fst (snd (UpdatePullRequestStatus ?gp pr w))) \<noteq> Some True"
    by (simp add: simProvider_def pending_def Let_def)
  have nc: "\<And>pr w. \<not> IsClosed (fst (snd (UpdatePullRequestStatus ?gp pr w)))"
    by (simp add: simProvider_def pending_def IsClosed_def Let_def)
  have ci: "\<And>pr w. snd (fst (PullRequestLastCommitStatus ?gp pr w)) = None \<longrightarrow>
           fst (fst (PullRequestLastCommitStatus ?gp pr w)) \<noteq> ''failure'' \<and>
           fst (fst (PullRequestLastCommitStatus ?gp pr w)) \<noteq> ''error''"
    by (simp add: simProvider_def pending_def Let_def)
  have b: "nat ((40 - Now simClock (world simStart)) div 20) + 2 = 4"
    by (simp add: simClock_def simStart_def)
  show ?thesis
    using open_pull_request_times_out [OF sl up st mg pd d ok nm nc ci,
        where ?end = 40 and s = simStart and duration = 40 and pr = simPR
          and logMergeFailure = False]
    unfolding b by (simp add: simClock_def)
qed

text \<open>
  Two runs from time 0 with \<^verbatim>\<open>end\<close> at 40 and an interval of 20. With a provider that
  answers \<open>pending\<close> for ever, the third tick completes at time 40 and keeps polling;
  the loop returns on the fourth tick, one more than the quotient plus one. With a
  provider whose refresh fails on the second tick, the loop returns at time 20 and the
  value is not the timeout.
\<close>

theorem timeout_at_deadline_counterexample:
  "waitForGitOpsPullRequest 3 simClock (simOpts False) (Some (simInfo [pending])) 40 40
      simStart =
     Polling \<lparr>URL = simURL, LastCommitSha = ''c0ffee'', Merged = None, closedFlag = False\<rparr> False
       \<lparr>world = \<lparr>clock = 60, tickNo = 3\<rparr>,
        trace = [Printf_Waiting simURL,
                 Call_UpdatePullRequestStatus None,
                 Call_PullRequestLastCommitStatus ''pending'' None, Call_Sleep 20,
                 Call_UpdatePullRequestStatus None,
                 Call_PullRequestLastCommitStatus ''pending'' None, Call_Sleep 20,
                 Call_UpdatePullRequestStatus None,
                 Call_PullRequestLastCommitStatus ''pending'' None, Call_Sleep 20]\<rparr>
   \<and> waitForGitOpsPullRequest 4 simClock (simOpts False) (Some (simInfo [pending])) 40 40
        simStart =
       Returned (Some (TimedOutWaiting simURL 40))
         \<lparr>world = \<lparr>clock = 60, tickNo = 3\<rparr>,
          trace = [Printf_Waiting simURL,
                   Call_UpdatePullRequestStatus None,
                   Call_PullRequestLastCommitStatus ''pending'' None, Call_Sleep 20,
                   Call_UpdatePullRequestStatus None,
                   Call_PullRequestLastCommitStatus ''pending'' None, Call_Sleep 20,
                   Call_UpdatePullRequestStatus None,
                   Call_PullRequestLastCommitStatus ''pending'' None, Call_Sleep 20,
                   Call_UpdatePullRequestStatus None,
                   Call_PullRequestLastCommitStatus ''pending'' None]\<rparr>
   \<and> waitForGitOpsPullRequest 4 simClock (simOpts False)
        (Some (simInfo [pending, refreshFails])) 40 40 simStart =
       Returned (Some (FailedToQueryStatus simURL ''connection reset by peer''))
         \<lparr>world = \<lparr>clock = 20, tickNo = 1\<rparr>,
          trace = [Printf_Waiting simURL,
                   Call_UpdatePullRequestStatus None,
                   Call_PullRequestLastCommitStatus ''pending'' None, Call_Sleep 20,
                   Call_UpdatePullRequestStatus (Some ''connection reset by peer'')]\<rparr>"
  by (simp add: waitForGitOpsPullRequest_def pollTick_def lastCommitStatusStep_def
        timeoutCheck_def emit_def IsClosed_def sim_defs refreshFails_def numeral_eq_Suc)

text \<open>
  C7. On every run of any length, when \<^verbatim>\<open>NoMergePullRequest\<close> is set the function
  never calls \<^verbatim>\<open>MergePullRequest\<close>; and whatever the option, every call of
  \<^verbatim>\<open>MergePullRequest\<close> comes directly after a call of \<^verbatim>\<open>PullRequestLastCommitStatus\<close>
  that returned the status \<^verbatim>\<open>success\<close> and no error. The fuel \<open>n\<close> is arbitrary, so
  the statement covers every prefix of a run that never returns.
\<close>

theorem merge_only_when_enabled_and_green:
  "\<exists>ext.
     trace (sys_of (waitForGitOpsPullRequest n clk opts pullRequestInfo end duration s)) =
       trace s @ ext
     \<and> mergesGuarded None ext
     \<and> (NoMergePullRequest opts \<longrightarrow> \<not> list_ex isMergeCall ext)"
proof (cases pullRequestInfo)
  case None
  then show ?thesis by (simp add: waitForGitOpsPullRequest_def)
next
  case (Some info)
  let ?s0 = "emit (Printf_Waiting (URL (PullRequest info))) s"
  from pollLoop_trace [of n clk opts "GitProvider info" "end" duration "PullRequest info" False ?s0]
  obtain ext where e:
    "trace (sys_of (pollLoop n clk opts (GitProvider info) end duration (PullRequest info)
        False ?s0)) = trace ?s0 @ ext"
    "mergesGuarded None ext" "NoMergePullRequest opts \<longrightarrow> \<not> list_ex isMergeCall ext"
    by blast
  have "mergesGuarded None (Printf_Waiting (URL (PullRequest info)) # ext)"
    using e(2) by (simp add: mergesGuarded_weaken)
  then show ?thesis
    using Some e
    by (intro exI [of _ "Printf_Waiting (URL (PullRequest info)) # ext"])
       (simp add: waitForGitOpsPullRequest_def emit_def list_ex_iff)
qed

text \<open>
  With auto-merge disabled and a provider that answers \<^verbatim>\<open>success\<close> for ever, no
  event of the run is a merge call.
\<close>

theorem merge_only_when_enabled_and_green_witness:
  "NoMergePullRequest (simOpts True)
   \<and> \<not> list_ex isMergeCall
        (trace (sys_of (waitForGitOpsPullRequest 3 simClock (simOpts True)
           (Some (simInfo [green])) 40 40 simStart)))
   \<and> mergesGuarded None
        (trace (sys_of (waitForGitOpsPullRequest 3 simClock (simOpts True)
           (Some (simInfo [green])) 40 40 simStart)))"
  using merge_only_when_enabled_and_green [of 3 simClock "simOpts True"
      "Some (simInfo [green])" 40 40 simStart]
  by (auto simp: simOpts_def simStart_def)

text \<open>
  C8. For every poll tick in which the refreshed pull request reports closed and not
  merged, the loop returns on that tick an error whose message holds the pull request
  URL. After the refresh the trace gains the warning of line 254 and nothing else: no
  provider call, no merge, no sleep, no further tick.
\<close>

theorem closed_without_merge_fails_at_once:
  assumes "UpdatePullRequestStatus gitProvider pr (world s) = (None, pr1, w1)"
    and "Merged pr1 \<noteq> Some True"
    and "IsClosed pr1"
  shows "pollLoop (Suc n) clk opts gitProvider end duration pr logMergeFailure s =
       Returned (Some (ClosedWithoutMerging (URL pr1)))
         \<lparr>world = w1,
          trace = trace s @ [Call_UpdatePullRequestStatus None, Warnf_Closed (URL pr1)]\<rparr>
     \<and> errorMessage durationString (ClosedWithoutMerging (URL pr1)) =
         ''Promotion failed as Pull Request '' @ URL pr1 @ '' is closed without merging''"
  using assms by (simp add: pollTick_def emit_def)

theorem closed_without_merge_fails_at_once_witness:
  "waitForGitOpsPullRequest 1 simClock (simOpts False) (Some (simInfo [closedUnmerged]))
      40 40 simStart =
     Returned (Some (ClosedWithoutMerging simURL))
       \<lparr>world = \<lparr>clock = 0, tickNo = 0\<rparr>,
        trace = [Printf_Waiting simURL, Call_UpdatePullRequestStatus None,
                 Warnf_Closed simURL]\<rparr>
   \<and> errorMessage (\<lambda>d. []) (ClosedWithoutMerging simURL) =
       ''Promotion failed as Pull Request https://git.example/env/pull/7 is closed without merging''"
proof -
  let ?pr1 = "\<lparr>URL = simURL, LastCommitSha = ''c0ffee'', Merged = Some False, closedFlag = True\<rparr>"
  let ?s = "emit (Printf_Waiting simURL) simStart"
  have u: "UpdatePullRequestStatus (simProvider [closedUnmerged]) simPR (world ?s) =
      (None, ?pr1, \<lparr>clock = 0, tickNo = 0\<rparr>)"
    by (simp add: sim_defs closedUnmerged_def emit_def)
  have m: "Merged ?pr1 \<noteq> Some True" by simp
  have c: "IsClosed ?pr1" by (simp add: IsClosed_def)
  show ?thesis
    using closed_without_merge_fails_at_once [OF u m c,
        where n = 0 and clk = simClock and opts = "simOpts False" and ?end = 40
          and duration = 40 and logMergeFailure = False and durationString = "\<lambda>d. []"]
    by (simp add: waitForGitOpsPullRequest_def simInfo_def simStart_def simPR_def emit_def
          simURL_def)
qed





end
